theory Spec2Isabelle
  imports Complex_Main "HOL-Library.AList"
begin

section \<open>Python values and errors\<close>

text \<open>
  The exceptions the search engine can raise.  \<open>ValueError\<close> is raised explicitly by the
  node generators; \<open>IndexError\<close> comes from \<open>re.findall(...)[0]\<close> on an empty match list;
  \<open>AttributeError\<close> comes from calling \<open>.items()\<close> or \<open>.get()\<close> on a value that is not a
  dictionary; \<open>KeyError\<close> from a dictionary subscript with a missing key; \<open>TypeError\<close> from
  iterating over \<open>None\<close>.
\<close>

datatype error = ValueError | IndexError | AttributeError | KeyError | TypeError

text \<open>
  A variable assignment is a Python \<open>dict\<close> from names to floats; its iteration order is
  its insertion order, so it is an association list.  Solver values are taken as reals.
  The value stored under \<open>'decision_vars'\<close> is such a dictionary or the string
  \<open>"infeasible"\<close>; \<open>lp_relaxation\<close> returns a dictionary or \<open>None\<close>.
\<close>

type_synonym assignment = "(string \<times> real) list"

datatype py_vars = Dict assignment | Str string | PyNone

datatype py_obj = Num real | ObjStr string

text \<open>\<open>d.items()\<close>: only a dictionary has the method.\<close>

fun items :: "py_vars \<Rightarrow> error + assignment" where
  "items (Dict d) = Inr d"
| "items (Str s) = Inl AttributeError"
| "items PyNone = Inl AttributeError"

text \<open>\<open>d.get(k, None)\<close>.\<close>

fun dict_get :: "py_vars \<Rightarrow> string \<Rightarrow> error + real option" where
  "dict_get (Dict d) k = Inr (map_of d k)"
| "dict_get (Str s) k = Inl AttributeError"
| "dict_get PyNone k = Inl AttributeError"

text \<open>\<open>for x in d\<close>: the keys of a dictionary, the characters of a string.\<close>

fun iter_keys :: "py_vars \<Rightarrow> error + string list" where
  "iter_keys (Dict d) = Inr (map fst d)"
| "iter_keys (Str s) = Inr (map (\<lambda>c. [c]) s)"
| "iter_keys PyNone = Inl TypeError"

section \<open>The model and its coefficient extraction (\<open>model/Model.py\<close>)\<close>

record Model =
  set_obj :: string
  obj_f :: string
  constraints :: "string list"
  binary_vars :: "string list"

definition is_digit :: "char \<Rightarrow> bool" where
  "is_digit c = (c \<in> set ''0123456789'')"

text \<open>The characters matched by \<open>\s\<close> among the 8-bit characters.\<close>

definition is_space :: "char \<Rightarrow> bool" where
  "is_space c = (c \<in> set [CHR 0x09, CHR 0x0A, CHR 0x0B, CHR 0x0C, CHR 0x0D,
                           CHR 0x1C, CHR 0x1D, CHR 0x1E, CHR 0x1F, CHR 0x20,
                           CHR 0x85, CHR 0xA0])"

definition is_opchar :: "char \<Rightarrow> bool" where
  "is_opchar c = (c \<in> set ''<>='')"

text \<open>\<open>int(num)\<close> on a string of decimal digits.\<close>

definition py_int :: "string \<Rightarrow> int" where
  "py_int ds = foldl (\<lambda>a c. 10 * a + (int (of_char c) - 48)) 0 ds"

text \<open>
  A match of \<open>(\d+)\s*\*\<close> at the head of the string: the captured digits and the text
  after the star.  Both repetitions are greedy and giving back characters never helps:
  after fewer digits comes a digit, after fewer blanks comes a blank.
\<close>

definition coeff_match :: "string \<Rightarrow> (string \<times> string) option" where
  "coeff_match s =
     (let ds = takeWhile is_digit s;
          r = dropWhile is_space (dropWhile is_digit s)
      in if ds = [] then None
         else (case r of [] \<Rightarrow> None
               | c # r' \<Rightarrow> if c = CHR ''*'' then Some (ds, r') else None))"

lemma coeff_match_shorter:
  "coeff_match s = Some (g, rest) \<Longrightarrow> length rest < length s"
proof -
  assume a: "coeff_match s = Some (g, rest)"
  have le: "length (dropWhile is_space (dropWhile is_digit s)) \<le> length s"
    by (meson length_dropWhile_le order_trans)
  from a obtain c where "dropWhile is_space (dropWhile is_digit s) = c # rest"
    by (auto simp: coeff_match_def Let_def split: if_splits list.splits)
  with le show ?thesis by simp
qed

text \<open>\<open>re.findall(r'(\d+)\s*\*', s)\<close>: the non-overlapping matches, scanning left to right.\<close>

function findall_coeff :: "string \<Rightarrow> string list" where
  "findall_coeff [] = []"
| "findall_coeff (c # cs) =
     (case coeff_match (c # cs) of
        Some (g, rest) \<Rightarrow> g # findall_coeff rest
      | None \<Rightarrow> findall_coeff cs)"
  by pat_completeness auto
termination
  by (relation "measure length") (auto dest: coeff_match_shorter)

text \<open>
  \<open>re.findall(r'[<>=]+', s)[0]\<close>: the leftmost maximal run of operator characters;
  the subscript raises \<open>IndexError\<close> when there is none.
\<close>

definition first_operator :: "string \<Rightarrow> error + string" where
  "first_operator s =
     (let r = dropWhile (\<lambda>c. \<not> is_opchar c) s
      in if r = [] then Inl IndexError else Inr (takeWhile is_opchar r))"

text \<open>
  A match of \<open>(\d+)\s*$\<close> at the head of the string, and the leftmost match in the
  string; \<open>re.findall(r'(\d+)\s*$', s)[0]\<close> is that match or \<open>IndexError\<close>.
\<close>

definition last_match :: "string \<Rightarrow> string option" where
  "last_match s =
     (let ds = takeWhile is_digit s;
          r = dropWhile is_space (dropWhile is_digit s)
      in if ds \<noteq> [] \<and> r = [] then Some ds else None)"

fun search_last :: "string \<Rightarrow> string option" where
  "search_last [] = None"
| "search_last (c # cs) =
     (case last_match (c # cs) of Some g \<Rightarrow> Some g | None \<Rightarrow> search_last cs)"

definition first_last_value :: "string \<Rightarrow> error + int" where
  "first_last_value s =
     (case search_last s of None \<Rightarrow> Inl IndexError | Some g \<Rightarrow> Inr (py_int g))"

text \<open>
  The loop over the constraints of \<open>extract_coefficients\<close>: each constraint contributes
  a coefficient row, an operator and a right-hand side, and the first failing subscript
  ends the call.
\<close>

fun extract_constraints ::
  "string list \<Rightarrow> error + (int list list \<times> string list \<times> int list)" where
  "extract_constraints [] = Inr ([], [], [])"
| "extract_constraints (constraint # rest) =
     (let constraint_coeffs = map py_int (findall_coeff constraint)
      in case first_operator constraint of
           Inl e \<Rightarrow> Inl e
         | Inr operator \<Rightarrow>
             (case first_last_value constraint of
                Inl e \<Rightarrow> Inl e
              | Inr last_value \<Rightarrow>
                  (case extract_constraints rest of
                     Inl e \<Rightarrow> Inl e
                   | Inr (cc, ops, lvs) \<Rightarrow>
                       Inr (constraint_coeffs # cc, operator # ops, last_value # lvs))))"

definition extract_coefficients ::
  "Model \<Rightarrow> error + (int list \<times> int list list \<times> string list \<times> int list)" where
  "extract_coefficients m =
     (let objective_coefficients = map py_int (findall_coeff (obj_f m))
      in case extract_constraints (constraints m) of
           Inl e \<Rightarrow> Inl e
         | Inr (cc, ops, lvs) \<Rightarrow> Inr (objective_coefficients, cc, ops, lvs))"

section \<open>The branching rule\<close>

text \<open>
  The loop of \<open>find_next_branch_var\<close> over the items, with its two loop variables
  \<open>next_branch_var\<close> and \<open>max_fractional_value\<close>.
\<close>

fun branch_scan :: "assignment \<Rightarrow> string option \<Rightarrow> real \<Rightarrow> string option" where
  "branch_scan [] next_branch_var max_fractional_value = next_branch_var"
| "branch_scan ((var_name, var_value) # rest) next_branch_var max_fractional_value =
     (if 0 < var_value \<and> var_value < 1 \<and> var_value > max_fractional_value
      then branch_scan rest (Some var_name) var_value
      else branch_scan rest next_branch_var max_fractional_value)"

definition find_next_branch_var :: "py_vars \<Rightarrow> error + string option" where
  "find_next_branch_var relaxation =
     (case items relaxation of
        Inl e \<Rightarrow> Inl e
      | Inr its \<Rightarrow> Inr (branch_scan its None (- 1)))"


section \<open>The linear program handed to the solver\<close>

text \<open>
  The state of a \<open>gurobipy\<close> model when \<open>optimize()\<close> is called: the variables added by
  \<open>addVar\<close> in order, the objective and its sense, and the constraints added by
  \<open>addConstr\<close>.  A variable object is identified by its position in the model; a linear
  expression is the list of its terms \<open>coeff * var\<close>.
\<close>

datatype var_type = CONTINUOUS | BINARY

datatype sense = MAXIMIZE | MINIMIZE

datatype cmp = Leq | Geq | Eql

record gp_var =
  lb :: real
  ub :: real
  vtype :: var_type
  vname :: string

type_synonym lin_expr = "(int \<times> nat) list"

record gp_model =
  gp_vars :: "gp_var list"
  gp_objective :: lin_expr
  gp_sense :: sense
  gp_constrs :: "(lin_expr \<times> cmp \<times> int) list"

definition new_model :: gp_model where
  "new_model = \<lparr>gp_vars = [], gp_objective = [], gp_sense = MINIMIZE, gp_constrs = []\<rparr>"

definition addVar :: "gp_model \<Rightarrow> gp_var \<Rightarrow> gp_model \<times> nat" where
  "addVar gm v = (gm\<lparr>gp_vars := gp_vars gm @ [v]\<rparr>, length (gp_vars gm))"

definition setObjective :: "gp_model \<Rightarrow> lin_expr \<Rightarrow> sense \<Rightarrow> gp_model" where
  "setObjective gm expr sn = gm\<lparr>gp_objective := expr, gp_sense := sn\<rparr>"

definition addConstr :: "gp_model \<Rightarrow> lin_expr \<times> cmp \<times> int \<Rightarrow> gp_model" where
  "addConstr gm c = gm\<lparr>gp_constrs := gp_constrs gm @ [c]\<rparr>"

text \<open>\<open>GRB.MAXIMIZE if set_obj == "MAXIMIZE" else GRB.MINIMIZE\<close>.\<close>

definition sense_of :: "string \<Rightarrow> sense" where
  "sense_of s = (if s = ''MAXIMIZE'' then MAXIMIZE else MINIMIZE)"

text \<open>
  The LP oracle: the status after \<open>optimize()\<close> is \<open>OPTIMAL\<close>, with the objective value
  and the value \<open>X\<close> of every variable, or anything else.  Every call of \<open>optimize\<close> is
  recorded in the list of the submitted models.
\<close>

datatype lp_result = Optimal real "nat \<Rightarrow> real" | NotOptimal

type_synonym lp_oracle = "gp_model \<Rightarrow> lp_result"

definition optimize :: "lp_oracle \<Rightarrow> gp_model \<Rightarrow> gp_model list \<Rightarrow> lp_result \<times> gp_model list" where
  "optimize orc gm calls = (orc gm, calls @ [gm])"

text \<open>The name-to-variable dictionary \<open>vars_dict\<close> of the generators.\<close>

type_synonym vars_dict = "(string \<times> nat) list"

text \<open>
  \<open>gp.quicksum(coeff * vars_dict[var_name] for coeff, var_name in zip(coeffs, names))\<close>.
\<close>

fun quicksum_zip :: "int list \<Rightarrow> string list \<Rightarrow> vars_dict \<Rightarrow> error + lin_expr" where
  "quicksum_zip (coeff # cs) (var_name # ns) vd =
     (case map_of vd var_name of
        None \<Rightarrow> Inl KeyError
      | Some h \<Rightarrow>
          (case quicksum_zip cs ns vd of
             Inl e \<Rightarrow> Inl e
           | Inr ts \<Rightarrow> Inr ((coeff, h) # ts)))"
| "quicksum_zip _ _ vd = Inr []"

text \<open>
  The objective of \<open>lp_relaxation\<close>:
  \<open>gp.quicksum(coeff * vars_dict[var_name] for coeff_row in coefficients
     for coeff, var_name in zip(coeff_row, decision_variables))\<close>.
\<close>

fun quicksum_rows :: "int list list \<Rightarrow> string list \<Rightarrow> vars_dict \<Rightarrow> error + lin_expr" where
  "quicksum_rows [] names vd = Inr []"
| "quicksum_rows (coeff_row # rows) names vd =
     (case quicksum_zip coeff_row names vd of
        Inl e \<Rightarrow> Inl e
      | Inr ts \<Rightarrow>
          (case quicksum_rows rows names vd of
             Inl e \<Rightarrow> Inl e
           | Inr ts' \<Rightarrow> Inr (ts @ ts')))"

text \<open>
  The constraint loop, the same text in all four LP-building functions:
  \<open>for coeff_row, operator, last_value in zip(constraint_coeffs, operators, last_values)\<close>.
\<close>

fun add_constraints ::
  "(int list \<times> string \<times> int) list \<Rightarrow> string list \<Rightarrow> vars_dict \<Rightarrow> gp_model \<Rightarrow> error + gp_model" where
  "add_constraints [] names vd gm = Inr gm"
| "add_constraints ((coeff_row, operator, last_value) # rest) names vd gm =
     (case quicksum_zip coeff_row names vd of
        Inl e \<Rightarrow> Inl e
      | Inr constraint_expr \<Rightarrow>
          if operator = ''<=''
          then add_constraints rest names vd (addConstr gm (constraint_expr, Leq, last_value))
          else if operator = ''>=''
          then add_constraints rest names vd (addConstr gm (constraint_expr, Geq, last_value))
          else if operator = ''==''
          then add_constraints rest names vd (addConstr gm (constraint_expr, Eql, last_value))
          else Inl ValueError)"

text \<open>\<open>round(x, 2)\<close>: to the nearest hundredth, a tie to the even one.\<close>

definition py_round2 :: "real \<Rightarrow> real" where
  "py_round2 x =
     (let y = x * 100; f = \<lfloor>y\<rfloor>; d = y - of_int f
      in of_int (if d < 1 / 2 then f else if 1 / 2 < d then f + 1
                 else if even f then f else f + 1) / 100)"

text \<open>A node of the search: the dictionary with the two keys the generators fill in.\<close>

record node =
  optimal_objective :: py_obj
  decision_vars :: py_vars

text \<open>The block after \<open>gp_model.optimize()\<close>, the same text in the three node generators.\<close>

fun make_node :: "lp_result \<Rightarrow> vars_dict \<Rightarrow> node" where
  "make_node (Optimal objval X) vd =
     \<lparr>optimal_objective = Num (py_round2 objval),
      decision_vars = Dict (map (\<lambda>(var_name, h). (var_name, X h)) vd)\<rparr>"
| "make_node NotOptimal vd =
     \<lparr>optimal_objective = ObjStr ''infeasible'', decision_vars = Str ''infeasible''\<rparr>"

section \<open>The pre-root relaxation\<close>

fun relaxation_vars :: "string list \<Rightarrow> gp_model \<times> vars_dict \<Rightarrow> gp_model \<times> vars_dict" where
  "relaxation_vars [] st = st"
| "relaxation_vars (var_name # rest) (gm, vd) =
     (let (gm', h) = addVar gm \<lparr>lb = 0, ub = 1, vtype = CONTINUOUS, vname = var_name\<rparr>
      in relaxation_vars rest (gm', AList.update var_name h vd))"

definition lp_relaxation ::
  "lp_oracle \<Rightarrow> string \<Rightarrow> int list list \<Rightarrow> string list \<Rightarrow> int list \<Rightarrow> string list
     \<Rightarrow> gp_model list \<Rightarrow> (error + py_vars) \<times> gp_model list" where
  "lp_relaxation orc set_obj' coefficients operators last_values decision_variables calls =
     (let (gm1, vd) = relaxation_vars decision_variables (new_model, [])
      in case quicksum_rows coefficients decision_variables vd of
           Inl e \<Rightarrow> (Inl e, calls)
         | Inr objective_expr \<Rightarrow>
             (case add_constraints (zip coefficients (zip operators last_values))
                     decision_variables vd
                     (setObjective gm1 objective_expr (sense_of set_obj')) of
                Inl e \<Rightarrow> (Inl e, calls)
              | Inr gm3 \<Rightarrow>
                  (case optimize orc gm3 calls of
                     (Optimal objval X, calls') \<Rightarrow>
                       (Inr (Dict (map (\<lambda>(var_name, h). (var_name, X h)) vd)), calls')
                   | (NotOptimal, calls') \<Rightarrow> (Inr PyNone, calls'))))"

section \<open>The node generators\<close>

fun root_vars ::
  "string list \<Rightarrow> string option \<Rightarrow> gp_model \<times> vars_dict \<Rightarrow> gp_model \<times> vars_dict" where
  "root_vars [] branch_var st = st"
| "root_vars (var_name # rest) branch_var (gm, vd) =
     (let (gm', h) =
            (if Some var_name = branch_var
             then addVar gm \<lparr>lb = 0, ub = 1, vtype = BINARY, vname = var_name\<rparr>
             else addVar gm \<lparr>lb = 0, ub = 1, vtype = CONTINUOUS, vname = var_name\<rparr>)
      in root_vars rest branch_var (gm', AList.update var_name h vd))"

definition generate_root_node ::
  "lp_oracle \<Rightarrow> string \<Rightarrow> int list \<Rightarrow> int list list \<Rightarrow> string list \<Rightarrow> int list \<Rightarrow> string list
     \<Rightarrow> string option \<Rightarrow> gp_model list \<Rightarrow> (error + node) \<times> gp_model list" where
  "generate_root_node orc set_obj' objective_coeffs constraint_coeffs operators last_values
       binary_vars' branch_var calls =
     (let (gm1, vd) = root_vars binary_vars' branch_var (new_model, [])
      in case quicksum_zip objective_coeffs binary_vars' vd of
           Inl e \<Rightarrow> (Inl e, calls)
         | Inr objective_expr \<Rightarrow>
             (case add_constraints (zip constraint_coeffs (zip operators last_values))
                     binary_vars' vd
                     (setObjective gm1 objective_expr (sense_of set_obj')) of
                Inl e \<Rightarrow> (Inl e, calls)
              | Inr gm3 \<Rightarrow>
                  (case optimize orc gm3 calls of (res, calls') \<Rightarrow> (Inr (make_node res vd), calls'))))"

text \<open>
  The variable of the branch variable in the left child, from the value
  \<open>root_decision_vars.get(var_name, None)\<close>; the tests in the order of the source.
\<close>

definition left_branch_var :: "real option \<Rightarrow> string \<Rightarrow> error + gp_var" where
  "left_branch_var root_var_value var_name =
     (if root_var_value = None \<or> (0 \<le> the root_var_value \<and> the root_var_value \<le> 1)
      then Inr \<lparr>lb = 1, ub = 1, vtype = BINARY, vname = var_name\<rparr>
      else if root_var_value = Some 1
      then Inr \<lparr>lb = 1, ub = 1, vtype = BINARY, vname = var_name\<rparr>
      else if root_var_value = Some 0
      then Inr \<lparr>lb = 0, ub = 0, vtype = BINARY, vname = var_name\<rparr>
      else Inl ValueError)"

definition right_branch_var :: "real option \<Rightarrow> string \<Rightarrow> error + gp_var" where
  "right_branch_var root_var_value var_name =
     (if root_var_value = None \<or> (0 \<le> the root_var_value \<and> the root_var_value \<le> 1)
      then Inr \<lparr>lb = 0, ub = 0, vtype = BINARY, vname = var_name\<rparr>
      else if root_var_value = Some 1
      then Inr \<lparr>lb = 0, ub = 0, vtype = CONTINUOUS, vname = var_name\<rparr>
      else if root_var_value = Some 0
      then Inr \<lparr>lb = 1, ub = 1, vtype = BINARY, vname = var_name\<rparr>
      else Inl ValueError)"

text \<open>
  The variable loop of a child generator; \<open>branch_spec\<close> is \<open>left_branch_var\<close> or
  \<open>right_branch_var\<close>, the only place where the two generators differ.
\<close>

fun child_vars ::
  "(real option \<Rightarrow> string \<Rightarrow> error + gp_var) \<Rightarrow> string list \<Rightarrow> string option \<Rightarrow> py_vars
     \<Rightarrow> gp_model \<times> vars_dict \<Rightarrow> error + (gp_model \<times> vars_dict)" where
  "child_vars branch_spec [] branch_var root_decision_vars st = Inr st"
| "child_vars branch_spec (var_name # rest) branch_var root_decision_vars (gm, vd) =
     (if Some var_name = branch_var
      then (case dict_get root_decision_vars var_name of
              Inl e \<Rightarrow> Inl e
            | Inr root_var_value \<Rightarrow>
                (case branch_spec root_var_value var_name of
                   Inl e \<Rightarrow> Inl e
                 | Inr v \<Rightarrow>
                     (let (gm', h) = addVar gm v
                      in child_vars branch_spec rest branch_var root_decision_vars
                           (gm', AList.update var_name h vd))))
      else (let (gm', h) = addVar gm \<lparr>lb = 0, ub = 1, vtype = CONTINUOUS, vname = var_name\<rparr>
            in child_vars branch_spec rest branch_var root_decision_vars
                 (gm', AList.update var_name h vd)))"

text \<open>
  The model a child generator submits, up to the call of \<open>optimize\<close>: variables,
  objective, constraints.  \<open>binary_vars\<close> is whatever the caller passes, and is iterated.
\<close>

definition child_model ::
  "(real option \<Rightarrow> string \<Rightarrow> error + gp_var) \<Rightarrow> Model \<Rightarrow> int list \<Rightarrow> int list list
     \<Rightarrow> string list \<Rightarrow> int list \<Rightarrow> py_vars \<Rightarrow> string option \<Rightarrow> py_vars
     \<Rightarrow> error + (gp_model \<times> vars_dict)" where
  "child_model branch_spec model objective_coeffs constraint_coeffs operators last_values
       binary_vars' branch_var root_decision_vars =
     (case iter_keys binary_vars' of
        Inl e \<Rightarrow> Inl e
      | Inr names \<Rightarrow>
          (case child_vars branch_spec names branch_var root_decision_vars (new_model, []) of
             Inl e \<Rightarrow> Inl e
           | Inr (gm1, vd) \<Rightarrow>
               (case quicksum_zip objective_coeffs names vd of
                  Inl e \<Rightarrow> Inl e
                | Inr objective_expr \<Rightarrow>
                    (case add_constraints (zip constraint_coeffs (zip operators last_values))
                            names vd
                            (setObjective gm1 objective_expr (sense_of (set_obj model))) of
                       Inl e \<Rightarrow> Inl e
                     | Inr gm3 \<Rightarrow> Inr (gm3, vd)))))"

definition generate_left_child_node ::
  "lp_oracle \<Rightarrow> Model \<Rightarrow> int list \<Rightarrow> int list list \<Rightarrow> string list \<Rightarrow> int list \<Rightarrow> py_vars
     \<Rightarrow> string option \<Rightarrow> py_vars \<Rightarrow> gp_model list \<Rightarrow> (error + node) \<times> gp_model list" where
  "generate_left_child_node orc model objective_coeffs constraint_coeffs operators last_values
       binary_vars' branch_var root_decision_vars calls =
     (case child_model left_branch_var model objective_coeffs constraint_coeffs operators
             last_values binary_vars' branch_var root_decision_vars of
        Inl e \<Rightarrow> (Inl e, calls)
      | Inr (gm, vd) \<Rightarrow>
          (case optimize orc gm calls of (res, calls') \<Rightarrow> (Inr (make_node res vd), calls')))"

definition generate_right_child_node ::
  "lp_oracle \<Rightarrow> Model \<Rightarrow> int list \<Rightarrow> int list list \<Rightarrow> string list \<Rightarrow> int list \<Rightarrow> py_vars
     \<Rightarrow> string option \<Rightarrow> py_vars \<Rightarrow> gp_model list \<Rightarrow> (error + node) \<times> gp_model list" where
  "generate_right_child_node orc model objective_coeffs constraint_coeffs operators last_values
       binary_vars' branch_var root_decision_vars calls =
     (case child_model right_branch_var model objective_coeffs constraint_coeffs operators
             last_values binary_vars' branch_var root_decision_vars of
        Inl e \<Rightarrow> (Inl e, calls)
      | Inr (gm, vd) \<Rightarrow>
          (case optimize orc gm calls of (res, calls') \<Rightarrow> (Inr (make_node res vd), calls')))"

definition generate_child_nodes ::
  "lp_oracle \<Rightarrow> Model \<Rightarrow> py_vars \<Rightarrow> string option \<Rightarrow> py_vars \<Rightarrow> gp_model list
     \<Rightarrow> (error + (node \<times> node)) \<times> gp_model list" where
  "generate_child_nodes orc model decision_vars' next_branch_var root_node_vars calls =
     (case extract_coefficients model of
        Inl e \<Rightarrow> (Inl e, calls)
      | Inr (objective_coeffs, constraint_coeffs, operators, last_values) \<Rightarrow>
          (case generate_left_child_node orc model objective_coeffs constraint_coeffs operators
                  last_values decision_vars' next_branch_var root_node_vars calls of
             (Inl e, calls1) \<Rightarrow> (Inl e, calls1)
           | (Inr left_child_node, calls1) \<Rightarrow>
               (case generate_right_child_node orc model objective_coeffs constraint_coeffs
                       operators last_values decision_vars' next_branch_var root_node_vars calls1 of
                  (Inl e, calls2) \<Rightarrow> (Inl e, calls2)
                | (Inr right_child_node, calls2) \<Rightarrow>
                    (Inr (left_child_node, right_child_node), calls2))))"

section \<open>The integrality test\<close>

text \<open>
  \<open>all_binary_check\<close>: the loop over \<open>current_vars.values()\<close> returns \<open>False\<close> at the first
  value that is neither 0 nor 1.  No function of the source calls it.
\<close>

fun binary_values :: "real list \<Rightarrow> bool" where
  "binary_values [] = True"
| "binary_values (value # rest) =
     (if \<not> (value = 0 \<or> value = 1) then False else binary_values rest)"

definition all_binary_check :: "py_vars \<Rightarrow> error + bool" where
  "all_binary_check current_vars =
     (case items current_vars of
        Inl e \<Rightarrow> Inl e
      | Inr its \<Rightarrow> Inr (binary_values (map snd its)))"

section \<open>The search driver, flat mode\<close>

text \<open>
  The key of a node in the visited set and in the graph is \<open>tuple(d.items())\<close>, the
  ordered list of the pairs of its assignment.  A frontier entry pairs a node with the
  assignment passed as \<open>root_node_vars\<close> when its children are generated.
\<close>

type_synonym entry = "node \<times> py_vars"

text \<open>
  One pass through the body of the \<open>while\<close> loop of \<open>solve_branch_and_bound\<close>, for the
  entry taken by \<open>node_list.pop(0)\<close> and the list left behind.  A node dictionary is never
  empty, so the tests \<open>if left_child_node and ...\<close> are decided by the visited set alone.
\<close>

definition solve_step ::
  "lp_oracle \<Rightarrow> Model \<Rightarrow> entry \<Rightarrow> entry list \<Rightarrow> assignment set \<Rightarrow> gp_model list
     \<Rightarrow> (error + (entry list \<times> assignment set)) \<times> gp_model list" where
  "solve_step orc model entry node_list visited_nodes calls =
     (case entry of (current_node, current_node_vars) \<Rightarrow>
        (case find_next_branch_var (decision_vars current_node) of
           Inl e \<Rightarrow> (Inl e, calls)
         | Inr next_branch_var \<Rightarrow>
             (case generate_child_nodes orc model (decision_vars current_node) next_branch_var
                     current_node_vars calls of
                (Inl e, calls1) \<Rightarrow> (Inl e, calls1)
              | (Inr (left_child_node, right_child_node), calls1) \<Rightarrow>
                  (case items (decision_vars left_child_node) of
                     Inl e \<Rightarrow> (Inl e, calls1)
                   | Inr left_key \<Rightarrow>
                       (let (node_list1, visited1) =
                              (if left_key \<notin> visited_nodes
                               then (node_list @ [(left_child_node, current_node_vars)],
                                     insert left_key visited_nodes)
                               else (node_list, visited_nodes))
                        in case items (decision_vars right_child_node) of
                             Inl e \<Rightarrow> (Inl e, calls1)
                           | Inr right_key \<Rightarrow>
                               (if right_key \<notin> visited1
                                then (Inr (node_list1 @ [(right_child_node,
                                                          decision_vars right_child_node)],
                                           insert right_key visited1), calls1)
                                else (Inr (node_list1, visited1), calls1)))))))"

text \<open>
  The \<open>while node_list:\<close> loop.  The number of passes is bounded by a fuel argument;
  the result is \<open>None\<close> when the fuel runs out before the frontier is empty.
\<close>

fun solve_loop ::
  "lp_oracle \<Rightarrow> Model \<Rightarrow> nat \<Rightarrow> entry list \<Rightarrow> assignment set \<Rightarrow> gp_model list
     \<Rightarrow> (error + assignment set) option \<times> gp_model list" where
  "solve_loop orc model fuel [] visited_nodes calls = (Some (Inr visited_nodes), calls)"
| "solve_loop orc model 0 (entry # node_list) visited_nodes calls = (None, calls)"
| "solve_loop orc model (Suc fuel) (entry # node_list) visited_nodes calls =
     (case solve_step orc model entry node_list visited_nodes calls of
        (Inl e, calls1) \<Rightarrow> (Some (Inl e), calls1)
      | (Inr (node_list', visited'), calls1) \<Rightarrow>
          solve_loop orc model fuel node_list' visited' calls1)"

text \<open>
  The part of both drivers before the loop: coefficients, pre-root relaxation, first
  branch variable, root node.
\<close>

definition search_root ::
  "lp_oracle \<Rightarrow> Model \<Rightarrow> gp_model list \<Rightarrow> (error + node) \<times> gp_model list" where
  "search_root orc model calls =
     (case extract_coefficients model of
        Inl e \<Rightarrow> (Inl e, calls)
      | Inr (objective_coeffs, constraint_coeffs, operators, last_values) \<Rightarrow>
          (case lp_relaxation orc (set_obj model) constraint_coeffs operators last_values
                  (binary_vars model) calls of
             (Inl e, calls1) \<Rightarrow> (Inl e, calls1)
           | (Inr relaxation, calls1) \<Rightarrow>
               (case find_next_branch_var relaxation of
                  Inl e \<Rightarrow> (Inl e, calls1)
                | Inr next_branch_var \<Rightarrow>
                    generate_root_node orc (set_obj model) objective_coeffs constraint_coeffs
                      operators last_values (binary_vars model) next_branch_var calls1)))"

text \<open>
  \<open>solve_branch_and_bound\<close>.  The loop printing the root's variables calls \<open>.items()\<close>
  on the root's \<open>decision_vars\<close>, as the \<open>visited_nodes.add\<close> after it does.
\<close>

definition solve_branch_and_bound ::
  "lp_oracle \<Rightarrow> Model \<Rightarrow> nat \<Rightarrow> gp_model list
     \<Rightarrow> (error + assignment set) option \<times> gp_model list" where
  "solve_branch_and_bound orc model fuel calls =
     (case search_root orc model calls of
        (Inl e, calls1) \<Rightarrow> (Some (Inl e), calls1)
      | (Inr root_node, calls1) \<Rightarrow>
          (case items (decision_vars root_node) of
             Inl e \<Rightarrow> (Some (Inl e), calls1)
           | Inr root_key \<Rightarrow>
               solve_loop orc model fuel [(root_node, decision_vars root_node)] {root_key}
                 calls1))"

section \<open>The search driver, tree mode\<close>

text \<open>
  The \<open>networkx.DiGraph\<close>: the nodes in insertion order, each with its
  \<open>optimal_objective\<close> attribute if one was given, and the edges.  \<open>add_node\<close> sets the
  attribute of a new or an existing node; \<open>add_edge\<close> adds the end points that are not
  nodes yet, without attribute, and adds the edge if it is not there.
\<close>

record digraph =
  g_nodes :: "(assignment \<times> py_obj option) list"
  g_edges :: "(assignment \<times> assignment) list"

definition empty_graph :: digraph where
  "empty_graph = \<lparr>g_nodes = [], g_edges = []\<rparr>"

definition add_node :: "digraph \<Rightarrow> assignment \<Rightarrow> py_obj \<Rightarrow> digraph" where
  "add_node g k obj = g\<lparr>g_nodes := AList.update k (Some obj) (g_nodes g)\<rparr>"

definition touch_node :: "assignment \<Rightarrow> (assignment \<times> py_obj option) list
     \<Rightarrow> (assignment \<times> py_obj option) list" where
  "touch_node k ns = (if k \<in> set (map fst ns) then ns else ns @ [(k, None)])"

definition add_edge :: "digraph \<Rightarrow> assignment \<Rightarrow> assignment \<Rightarrow> digraph" where
  "add_edge g u v =
     g\<lparr>g_nodes := touch_node v (touch_node u (g_nodes g)),
       g_edges := (if (u, v) \<in> set (g_edges g) then g_edges g else g_edges g @ [(u, v)])\<rparr>"

definition in_degree :: "digraph \<Rightarrow> assignment \<Rightarrow> nat" where
  "in_degree g k = length (filter (\<lambda>(u, v). v = k) (g_edges g))"

type_synonym tree_entry = "node \<times> py_vars \<times> string"

text \<open>
  The handling of one child in the loop of \<open>create_branch_and_bound_tree\<close>: node and
  edge are recorded first, the visited set decides the queueing only.  \<open>ref\<close> is the
  assignment queued with the child and \<open>node_type\<close> its tag.
\<close>

definition tree_child ::
  "node \<Rightarrow> py_vars \<Rightarrow> py_vars \<Rightarrow> string
     \<Rightarrow> digraph \<times> tree_entry list \<times> assignment set
     \<Rightarrow> error + (digraph \<times> tree_entry list \<times> assignment set)" where
  "tree_child child_node current_node_vars ref node_type st =
     (case st of (graph, node_list, visited_nodes) \<Rightarrow>
        (case items (decision_vars child_node) of
           Inl e \<Rightarrow> Inl e
         | Inr child_key \<Rightarrow>
             (let graph1 = add_node graph child_key (optimal_objective child_node)
              in case items current_node_vars of
                   Inl e \<Rightarrow> Inl e
                 | Inr parent_key \<Rightarrow>
                     (let graph2 = add_edge graph1 parent_key child_key
                      in if child_key \<notin> visited_nodes
                         then Inr (graph2, node_list @ [(child_node, ref, node_type)],
                                   insert child_key visited_nodes)
                         else Inr (graph2, node_list, visited_nodes)))))"

definition tree_step ::
  "lp_oracle \<Rightarrow> Model \<Rightarrow> tree_entry \<Rightarrow> digraph \<times> tree_entry list \<times> assignment set
     \<Rightarrow> gp_model list
     \<Rightarrow> (error + (digraph \<times> tree_entry list \<times> assignment set)) \<times> gp_model list" where
  "tree_step orc model entry st calls =
     (case entry of (current_node, current_node_vars, node_type) \<Rightarrow>
        (case find_next_branch_var (decision_vars current_node) of
           Inl e \<Rightarrow> (Inl e, calls)
         | Inr next_branch_var \<Rightarrow>
             (case generate_child_nodes orc model (decision_vars current_node) next_branch_var
                     current_node_vars calls of
                (Inl e, calls1) \<Rightarrow> (Inl e, calls1)
              | (Inr (left_child_node, right_child_node), calls1) \<Rightarrow>
                  (case tree_child left_child_node current_node_vars current_node_vars
                          ''left'' st of
                     Inl e \<Rightarrow> (Inl e, calls1)
                   | Inr st1 \<Rightarrow>
                       (case tree_child right_child_node current_node_vars
                               (decision_vars right_child_node) ''right'' st1 of
                          Inl e \<Rightarrow> (Inl e, calls1)
                        | Inr st2 \<Rightarrow> (Inr st2, calls1))))))"

fun tree_loop ::
  "lp_oracle \<Rightarrow> Model \<Rightarrow> nat \<Rightarrow> digraph \<times> tree_entry list \<times> assignment set \<Rightarrow> gp_model list
     \<Rightarrow> (error + digraph) option \<times> gp_model list" where
  "tree_loop orc model fuel (graph, [], visited_nodes) calls = (Some (Inr graph), calls)"
| "tree_loop orc model 0 (graph, entry # node_list, visited_nodes) calls = (None, calls)"
| "tree_loop orc model (Suc fuel) (graph, entry # node_list, visited_nodes) calls =
     (case tree_step orc model entry (graph, node_list, visited_nodes) calls of
        (Inl e, calls1) \<Rightarrow> (Some (Inl e), calls1)
      | (Inr st', calls1) \<Rightarrow> tree_loop orc model fuel st' calls1)"

definition create_branch_and_bound_tree ::
  "lp_oracle \<Rightarrow> Model \<Rightarrow> nat \<Rightarrow> gp_model list \<Rightarrow> (error + digraph) option \<times> gp_model list" where
  "create_branch_and_bound_tree orc model fuel calls =
     (case search_root orc model calls of
        (Inl e, calls1) \<Rightarrow> (Some (Inl e), calls1)
      | (Inr root_node, calls1) \<Rightarrow>
          (case items (decision_vars root_node) of
             Inl e \<Rightarrow> (Some (Inl e), calls1)
           | Inr root_key \<Rightarrow>
               tree_loop orc model fuel
                 (add_node empty_graph root_key (optimal_objective root_node),
                  [(root_node, decision_vars root_node, ''root'')], {root_key})
                 calls1))"

section \<open>Example models and the solver's answers on them\<close>

text \<open>
  The value of a linear expression under an assignment of the variables.
\<close>

definition lin_value :: "lin_expr \<Rightarrow> (nat \<Rightarrow> real) \<Rightarrow> real" where
  "lin_value expr X = sum_list (map (\<lambda>(c, h). of_int c * X h) expr)"

text \<open>
  \<open>MAXIMIZE 1*x1\<close> subject to \<open>2*x1 <= 1\<close>.  With \<open>x1\<close> fixed to 1 the program is
  infeasible; with \<open>x1\<close> binary or fixed to 0 the optimum is \<open>x1 = 0\<close>; with \<open>x1\<close>
  continuous in [0, 1] it is \<open>x1 = 1/2\<close>, for the objective \<open>1*x1\<close> and for \<open>2*x1\<close> alike.
\<close>

definition half_model :: Model where
  "half_model = \<lparr>set_obj = ''MAXIMIZE'', obj_f = ''1*x1'', constraints = [''2*x1 <= 1''],
                  binary_vars = [''x1'']\<rparr>"

definition half_oracle :: lp_oracle where
  "half_oracle gm =
     (if list_ex (\<lambda>v. lb v = 1) (gp_vars gm) then NotOptimal
      else (let X = (\<lambda>h. if vtype (gp_vars gm ! h) = BINARY \<or> ub (gp_vars gm ! h) = 0
                          then 0 else 1 / 2)
            in Optimal (lin_value (gp_objective gm) X) X))"

text \<open>
  \<open>MAXIMIZE 1*x1\<close> subject to \<open>2*x1 == 1\<close>: the only solution is \<open>x1 = 1/2\<close>, so there is
  none once \<open>x1\<close> is binary or fixed.
\<close>

definition eq_model :: Model where
  "eq_model = \<lparr>set_obj = ''MAXIMIZE'', obj_f = ''1*x1'', constraints = [''2*x1 == 1''],
                binary_vars = [''x1'']\<rparr>"

definition eq_oracle :: lp_oracle where
  "eq_oracle gm =
     (if list_ex (\<lambda>v. vtype v = BINARY \<or> lb v = ub v) (gp_vars gm) then NotOptimal
      else Optimal (lin_value (gp_objective gm) (\<lambda>h. 1 / 2)) (\<lambda>h. 1 / 2))"

text \<open>
  The example \<open>MAXIMIZE 5*x1 + 4*x2\<close> subject to \<open>6*x1 + 4*x2 <= 24\<close> and
  \<open>1*x1 + 2*x2 <= 6\<close>: no constraint binds on the unit square, and with non-negative
  objective coefficients \<open>x1 = x2 = 1\<close> is optimal for every variable left free.
\<close>

definition scenario_model :: Model where
  "scenario_model = \<lparr>set_obj = ''MAXIMIZE'', obj_f = ''5*x1 + 4*x2'',
      constraints = [''6*x1 + 4*x2 <= 24'', ''1*x1 + 2*x2 <= 6''], binary_vars = [''x1'', ''x2'']\<rparr>"

definition ones_oracle :: lp_oracle where
  "ones_oracle gm = Optimal (lin_value (gp_objective gm) (\<lambda>h. 1)) (\<lambda>h. 1)"

text \<open>
  \<open>MAXIMIZE 0*x1\<close> subject to \<open>0*x1 <= 1\<close>: every point within the bounds is optimal.
  The answer takes the lower bound of a binary variable and the midpoint of the bounds of
  a continuous one.
\<close>

definition flat_model :: Model where
  "flat_model = \<lparr>set_obj = ''MAXIMIZE'', obj_f = ''0*x1'', constraints = [''0*x1 <= 1''],
                  binary_vars = [''x1'']\<rparr>"

definition flat_oracle :: lp_oracle where
  "flat_oracle gm =
     Optimal 0 (\<lambda>h. if vtype (gp_vars gm ! h) = BINARY then lb (gp_vars gm ! h)
                     else (lb (gp_vars gm ! h) + ub (gp_vars gm ! h)) / 2)"

text \<open>
  \<open>MAXIMIZE 1*x1\<close> subject to \<open>1*x1 <= 0\<close>: the only solution is \<open>x1 = 0\<close>.
\<close>

definition zero_model :: Model where
  "zero_model = \<lparr>set_obj = ''MAXIMIZE'', obj_f = ''1*x1'', constraints = [''1*x1 <= 0''],
                  binary_vars = [''x1'']\<rparr>"

definition zero_oracle :: lp_oracle where
  "zero_oracle gm = Optimal 0 (\<lambda>h. 0)"



text \<open>
  Values that occur in the examples: a node over the single variable \<open>x1\<close>; the program
  with \<open>x1\<close> fixed that the child generators submit for \<open>flat_model\<close>; the fully relaxed
  program of \<open>half_model\<close>; and the graph recorded for \<open>flat_model\<close>.
\<close>

definition x1_node :: "real \<Rightarrow> real \<Rightarrow> node" where
  "x1_node obj v = \<lparr>optimal_objective = Num obj, decision_vars = Dict [(''x1'', v)]\<rparr>"

definition flat_fixed_lp :: "real \<Rightarrow> gp_model" where
  "flat_fixed_lp b =
     \<lparr>gp_vars = [\<lparr>lb = b, ub = b, vtype = BINARY, vname = ''x1''\<rparr>],
      gp_objective = [(0, 0)], gp_sense = MAXIMIZE, gp_constrs = [([(0, 0)], Leq, 1)]\<rparr>"

definition half_relaxed_lp :: gp_model where
  "half_relaxed_lp =
     \<lparr>gp_vars = [\<lparr>lb = 0, ub = 1, vtype = CONTINUOUS, vname = ''x1''\<rparr>],
      gp_objective = [(1, 0)], gp_sense = MAXIMIZE, gp_constrs = [([(2, 0)], Leq, 1)]\<rparr>"

definition flat_graph :: digraph where
  "flat_graph =
     \<lparr>g_nodes = [([(''x1'', 0)], Some (Num 0)), ([(''x1'', 1 / 2)], Some (Num 0)),
                 ([(''x1'', 1)], Some (Num 0))],
      g_edges = [([(''x1'', 0)], [(''x1'', 1 / 2)]), ([(''x1'', 0)], [(''x1'', 1)]),
                 ([(''x1'', 0)], [(''x1'', 0)])]\<rparr>"

section \<open>Predicates used in the statements\<close>

text \<open>
  Position \<open>i\<close> of an assignment holds a value strictly between 0 and 1 and above \<open>mx\<close>
  that no other fractional value exceeds and no earlier fractional value reaches.
\<close>

definition scan_pick :: "assignment \<Rightarrow> real \<Rightarrow> nat \<Rightarrow> bool" where
  "scan_pick xs mx i \<longleftrightarrow>
     i < length xs \<and> 0 < snd (xs ! i) \<and> snd (xs ! i) < 1 \<and> mx < snd (xs ! i)
     \<and> (\<forall>j<length xs. 0 < snd (xs ! j) \<and> snd (xs ! j) < 1 \<longrightarrow> snd (xs ! j) \<le> snd (xs ! i))
     \<and> (\<forall>j<i. 0 < snd (xs ! j) \<and> snd (xs ! j) < 1 \<longrightarrow> snd (xs ! j) < snd (xs ! i))"




text \<open>
  The keys of the recorded graph nodes; the frontier of tree mode without its tags; and
  the invariant of the tree-mode loop: the graph's nodes are the visited keys, and the
  assignment queued with every frontier entry is a dictionary whose key is visited.
\<close>

definition node_keys :: "digraph \<Rightarrow> assignment set" where
  "node_keys g = set (map fst (g_nodes g))"

definition flat_entries :: "tree_entry list \<Rightarrow> entry list" where
  "flat_entries nl = map (\<lambda>(n, r, t). (n, r)) nl"

definition ref_visited :: "assignment set \<Rightarrow> tree_entry \<Rightarrow> bool" where
  "ref_visited vis e = (case fst (snd e) of Dict d \<Rightarrow> d \<in> vis | Str s \<Rightarrow> False | PyNone \<Rightarrow> False)"

definition tree_inv :: "digraph \<Rightarrow> tree_entry list \<Rightarrow> assignment set \<Rightarrow> bool" where
  "tree_inv g nl vis \<longleftrightarrow> node_keys g = vis \<and> list_all (ref_visited vis) nl"

text \<open>
  The graph is not empty, its first node has the given key, and every other node has an
  incoming edge.
\<close>

definition graph_inv :: "assignment \<Rightarrow> digraph \<Rightarrow> bool" where
  "graph_inv root_key g \<longleftrightarrow>
     g_nodes g \<noteq> [] \<and> fst (hd (g_nodes g)) = root_key
     \<and> (\<forall>k\<in>node_keys g. k \<noteq> root_key \<longrightarrow> (\<exists>u. (u, k) \<in> set (g_edges g)))"

section \<open>The branching rule: largest fractional value, first occurrence\<close>

lemma scan_take:
  "0 < v \<Longrightarrow> v < 1 \<Longrightarrow> mx < v \<Longrightarrow> branch_scan ((n, v) # xs) nb mx = branch_scan xs (Some n) v"
  by simp

lemma scan_skip:
  "\<not> (0 < v \<and> v < 1 \<and> mx < v) \<Longrightarrow> branch_scan ((n, v) # xs) nb mx = branch_scan xs nb mx"
  by auto

lemma scan_pick_Suc:
  assumes "scan_pick xs mx' i" and "mx \<le> mx'"
    and "0 < v \<and> v < 1 \<longrightarrow> v \<le> mx'"
  shows "scan_pick ((n, v) # xs) mx (Suc i)"
  unfolding scan_pick_def
proof (intro conjI allI impI)
  fix j assume "j < length ((n, v) # xs)" "0 < snd (((n, v) # xs) ! j) \<and> snd (((n, v) # xs) ! j) < 1"
  then show "snd (((n, v) # xs) ! j) \<le> snd (((n, v) # xs) ! Suc i)"
    using assms by (cases j) (auto simp: scan_pick_def)
next
  fix j assume "j < Suc i" "0 < snd (((n, v) # xs) ! j) \<and> snd (((n, v) # xs) ! j) < 1"
  then show "snd (((n, v) # xs) ! j) < snd (((n, v) # xs) ! Suc i)"
    using assms by (cases j) (auto simp: scan_pick_def)
qed (use assms in \<open>auto simp: scan_pick_def\<close>)

lemma scan_pick_0:
  assumes "0 < v" "v < 1" "mx < v"
    and "\<forall>j<length xs. \<not> (0 < snd (xs ! j) \<and> snd (xs ! j) < 1 \<and> v < snd (xs ! j))"
  shows "scan_pick ((n, v) # xs) mx 0"
  unfolding scan_pick_def
proof (intro conjI allI impI)
  fix j assume "j < length ((n, v) # xs)" "0 < snd (((n, v) # xs) ! j) \<and> snd (((n, v) # xs) ! j) < 1"
  then show "snd (((n, v) # xs) ! j) \<le> snd (((n, v) # xs) ! 0)"
    using assms by (cases j) (auto simp: not_less)
qed (use assms in auto)

lemma scan_cases:
  "(branch_scan xs nb mx = nb \<and> (\<forall>j<length xs. \<not> (0 < snd (xs ! j) \<and> snd (xs ! j) < 1 \<and> mx < snd (xs ! j))))
   \<or> (\<exists>i. branch_scan xs nb mx = Some (fst (xs ! i)) \<and> scan_pick xs mx i)"
proof (induction xs arbitrary: nb mx)
  case Nil
  then show ?case by simp
next
  case (Cons p xs)
  obtain n v where p: "p = (n, v)" by (cases p)
  show ?case
  proof (cases "0 < v \<and> v < 1 \<and> mx < v")
    case True
    then have eq: "branch_scan (p # xs) nb mx = branch_scan xs (Some n) v"
      using p scan_take by simp
    from Cons.IH[of "Some n" v] show ?thesis
    proof (elim disjE conjE exE)
      assume a: "branch_scan xs (Some n) v = Some n"
        "\<forall>j<length xs. \<not> (0 < snd (xs ! j) \<and> snd (xs ! j) < 1 \<and> v < snd (xs ! j))"
      have "scan_pick (p # xs) mx 0" using scan_pick_0 True a(2) p by blast
      moreover have "branch_scan (p # xs) nb mx = Some (fst ((p # xs) ! 0))"
        using eq a(1) p by simp
      ultimately show ?thesis by blast
    next
      fix i assume a: "branch_scan xs (Some n) v = Some (fst (xs ! i))" "scan_pick xs v i"
      have "scan_pick (p # xs) mx (Suc i)"
        using scan_pick_Suc[OF a(2), where mx=mx and v=v and n=n] True p by simp
      moreover have "branch_scan (p # xs) nb mx = Some (fst ((p # xs) ! Suc i))"
        using eq a(1) by simp
      ultimately show ?thesis by blast
    qed
  next
    case False
    then have eq: "branch_scan (p # xs) nb mx = branch_scan xs nb mx"
      using p scan_skip by simp
    from Cons.IH[of nb mx] show ?thesis
    proof (elim disjE conjE exE)
      assume a: "branch_scan xs nb mx = nb"
        "\<forall>j<length xs. \<not> (0 < snd (xs ! j) \<and> snd (xs ! j) < 1 \<and> mx < snd (xs ! j))"
      have "\<forall>j<length (p # xs). \<not> (0 < snd ((p # xs) ! j) \<and> snd ((p # xs) ! j) < 1 \<and> mx < snd ((p # xs) ! j))"
      proof (intro allI impI)
        fix j assume "j < length (p # xs)"
        then show "\<not> (0 < snd ((p # xs) ! j) \<and> snd ((p # xs) ! j) < 1 \<and> mx < snd ((p # xs) ! j))"
          using a(2) p False by (cases j) auto
      qed
      then show ?thesis using eq a(1) by presburger
    next
      fix i assume a: "branch_scan xs nb mx = Some (fst (xs ! i))" "scan_pick xs mx i"
      have "0 < v \<and> v < 1 \<longrightarrow> v \<le> mx" using False by auto
      then have "scan_pick (p # xs) mx (Suc i)"
        using scan_pick_Suc[OF a(2), where mx=mx and v=v and n=n] p by simp
      moreover have "branch_scan (p # xs) nb mx = Some (fst ((p # xs) ! Suc i))"
        using eq a(1) by simp
      ultimately show ?thesis by blast
    qed
  qed
qed

text \<open>
  Claim C6.  For an assignment whose values all lie in [0, 1], \<open>find_next_branch_var\<close>
  never fails; it returns \<open>None\<close> exactly when every value is 0 or 1; and when it returns
  a name, the name is that of an entry with a value strictly between 0 and 1 that no
  other such value exceeds and that no earlier such value equals, that is, the first
  entry in iteration order with the largest fractional value.  Being a function of the
  assignment alone, the answer is the same for the same input.
\<close>

theorem find_next_branch_var_policy:
  assumes "\<forall>j<length A. 0 \<le> snd (A ! j) \<and> snd (A ! j) \<le> 1"
  shows "(\<exists>r. find_next_branch_var (Dict A) = Inr r)
       \<and> (find_next_branch_var (Dict A) = Inr None \<longleftrightarrow> (\<forall>j<length A. snd (A ! j) = 0 \<or> snd (A ! j) = 1))
       \<and> (\<forall>b. find_next_branch_var (Dict A) = Inr (Some b) \<longrightarrow>
            (\<exists>i<length A. b = fst (A ! i) \<and> 0 < snd (A ! i) \<and> snd (A ! i) < 1
               \<and> (\<forall>j<length A. 0 < snd (A ! j) \<and> snd (A ! j) < 1 \<longrightarrow> snd (A ! j) \<le> snd (A ! i))
               \<and> (\<forall>j<i. 0 < snd (A ! j) \<and> snd (A ! j) < 1 \<longrightarrow> snd (A ! j) < snd (A ! i))))"
proof -
  have f: "find_next_branch_var (Dict A) = Inr (branch_scan A None (- 1))"
    by (simp add: find_next_branch_var_def)
  from scan_cases[of A None "- 1"] show ?thesis
  proof (elim disjE conjE exE)
    assume a: "branch_scan A None (- 1) = None"
      "\<forall>j<length A. \<not> (0 < snd (A ! j) \<and> snd (A ! j) < 1 \<and> - 1 < snd (A ! j))"
    have "\<forall>j<length A. snd (A ! j) = 0 \<or> snd (A ! j) = 1"
    proof (intro allI impI)
      fix j assume j: "j < length A"
      with a(2) have "\<not> (0 < snd (A ! j) \<and> snd (A ! j) < 1)" by auto
      with assms j show "snd (A ! j) = 0 \<or> snd (A ! j) = 1" by force
    qed
    with f a(1) show ?thesis by simp
  next
    fix i assume a: "branch_scan A None (- 1) = Some (fst (A ! i))" "scan_pick A (- 1) i"
    from a(2) have "\<not> (\<forall>j<length A. snd (A ! j) = 0 \<or> snd (A ! j) = 1)"
      unfolding scan_pick_def by force
    moreover from a(2) have "\<exists>i'<length A. fst (A ! i) = fst (A ! i') \<and> 0 < snd (A ! i') \<and> snd (A ! i') < 1
               \<and> (\<forall>j<length A. 0 < snd (A ! j) \<and> snd (A ! j) < 1 \<longrightarrow> snd (A ! j) \<le> snd (A ! i'))
               \<and> (\<forall>j<i'. 0 < snd (A ! j) \<and> snd (A ! j) < 1 \<longrightarrow> snd (A ! j) < snd (A ! i'))"
      unfolding scan_pick_def by blast
    ultimately show ?thesis using f a(1) by simp
  qed
qed

theorem find_next_branch_var_policy_witness:
  "find_next_branch_var (Dict [(''x1'', 1/2), (''x2'', 3/4), (''x3'', 3/4), (''x4'', 1)]) = Inr (Some ''x2'')
   \<and> find_next_branch_var (Dict [(''x1'', 0), (''x2'', 1)]) = Inr None"
  using find_next_branch_var_policy[of "[(''x1'', 1/2), (''x2'', 3/4), (''x3'', 3/4), (''x4'', 1)]"]
     find_next_branch_var_policy[of "[(''x1'', 0), (''x2'', 1)]"]
  by (simp add: find_next_branch_var_def)

lemmas parse_defs = extract_coefficients_def coeff_match_def is_digit_def is_space_def is_opchar_def
  py_int_def first_operator_def last_match_def first_last_value_def Let_def

lemmas lp_defs = lp_relaxation_def new_model_def addVar_def setObjective_def addConstr_def sense_of_def optimize_def
  generate_root_node_def child_model_def generate_left_child_node_def generate_right_child_node_def generate_child_nodes_def
  left_branch_var_def right_branch_var_def find_next_branch_var_def

lemma half_fields: "set_obj half_model = ''MAXIMIZE''" "binary_vars half_model = [''x1'']"
  by (simp_all add: half_model_def)
lemma half_extract: "extract_coefficients half_model = Inr ([1], [[2]], [''<=''], [1])"
  by (simp add: half_model_def parse_defs)
lemma eq_fields: "set_obj eq_model = ''MAXIMIZE''" "binary_vars eq_model = [''x1'']"
  by (simp_all add: eq_model_def)
lemma eq_extract: "extract_coefficients eq_model = Inr ([1], [[2]], [''==''], [1])"
  by (simp add: eq_model_def parse_defs)
lemma scenario_fields: "set_obj scenario_model = ''MAXIMIZE''" "binary_vars scenario_model = [''x1'', ''x2'']"
  by (simp_all add: scenario_model_def)
lemma scenario_extract: "extract_coefficients scenario_model = Inr ([5, 4], [[6, 4], [1, 2]], [''<='', ''<=''], [24, 6])"
  by (simp add: scenario_model_def parse_defs)

section \<open>The node generators on an integral parent value\<close>

text \<open>
  Claim C1.  The first test of \<open>generate_left_child_node\<close> is \<open>0 <= value <= 1\<close>, so it
  also takes the parent values 0 and 1 and the two branches written for them are never
  reached: with the parent value \<open>x1 = 0\<close> the left child's request fixes \<open>x1\<close> to the
  bounds [1, 1], binary, and not to [0, 0].
\<close>

theorem left_child_zero_parent_value:
  "map gp_vars (snd (generate_left_child_node half_oracle half_model [1] [[2]] [''<=''] [1]
       (Dict [(''x1'', 1 / 2)]) (Some ''x1'') (Dict [(''x1'', 0)]) []))
   = [[\<lparr>lb = 1, ub = 1, vtype = BINARY, vname = ''x1''\<rparr>]]"
  by (simp add: lp_defs half_fields half_oracle_def)

text \<open>
  Claim C7.  \<open>generate_right_child_node\<close> has the same first test: with the parent value
  \<open>x1 = 0\<close> the right child's request fixes \<open>x1\<close> to [0, 0], binary, and not to [1, 1];
  with the parent value \<open>x1 = 1\<close> the variable fixed to [0, 0] is binary, not continuous.
\<close>

theorem right_child_integral_parent_value:
  "map gp_vars (snd (generate_right_child_node half_oracle half_model [1] [[2]] [''<=''] [1]
       (Dict [(''x1'', 1 / 2)]) (Some ''x1'') (Dict [(''x1'', 0)]) []))
   = [[\<lparr>lb = 0, ub = 0, vtype = BINARY, vname = ''x1''\<rparr>]]
   \<and> map gp_vars (snd (generate_right_child_node half_oracle half_model [1] [[2]] [''<=''] [1]
       (Dict [(''x1'', 1 / 2)]) (Some ''x1'') (Dict [(''x1'', 1)]) []))
   = [[\<lparr>lb = 0, ub = 0, vtype = BINARY, vname = ''x1''\<rparr>]]"
  by (simp add: lp_defs half_fields half_oracle_def)

section \<open>Infeasible nodes\<close>

text \<open>
  Claim C3.  An infeasible node carries the string \<open>"infeasible"\<close> in place of its
  assignment, and the driver calls \<open>.items()\<close> on it.  On \<open>eq_model\<close> the root is
  infeasible and the run ends in \<open>AttributeError\<close> whatever the fuel, instead of returning
  an empty result; on \<open>half_model\<close> a left child is infeasible and the run ends in
  \<open>AttributeError\<close> in the second pass of the loop, instead of continuing.
\<close>

theorem infeasible_nodes_raise:
  "fst (solve_branch_and_bound eq_oracle eq_model fuel []) = Some (Inl AttributeError)
   \<and> fst (solve_branch_and_bound half_oracle half_model 2 []) = Some (Inl AttributeError)"
proof -
  have "fst (solve_branch_and_bound eq_oracle eq_model fuel []) = Some (Inl AttributeError)"
    by (simp add: solve_branch_and_bound_def search_root_def eq_extract eq_fields lp_defs eq_oracle_def lin_value_def)
  moreover have "fst (solve_branch_and_bound half_oracle half_model 2 []) = Some (Inl AttributeError)"
    by (simp add: solve_branch_and_bound_def search_root_def half_extract half_fields lp_defs half_oracle_def lin_value_def solve_step_def numeral_eq_Suc)
  ultimately show ?thesis by simp
qed

section \<open>The objective of the pre-root relaxation\<close>

text \<open>
  Claim C4.  \<open>lp_relaxation\<close> receives the constraint rows only and sums all of them into
  its objective.  On the example model the first program submitted has the objective
  \<open>6*x1 + 4*x2 + 1*x1 + 2*x2\<close>, the second (the root's) has the model's own
  \<open>5*x1 + 4*x2\<close>; at \<open>x1 = 1, x2 = 0\<close> the two take the values 7 and 5.
\<close>

theorem pre_root_objective:
  "map gp_objective (snd (search_root ones_oracle scenario_model []))
     = [[(6, 0), (4, 1), (1, 0), (2, 1)], [(5, 0), (4, 1)]]
   \<and> lin_value [(6, 0), (4, 1), (1, 0), (2, 1)] (\<lambda>h. if h = 0 then 1 else 0) = 7
   \<and> lin_value [(5, 0), (4, 1)] (\<lambda>h. if h = 0 then 1 else 0) = 5"
  by (simp add: search_root_def scenario_extract scenario_fields lp_defs ones_oracle_def lin_value_def)

section \<open>What one pass of the loop does\<close>

lemma flat_fields: "set_obj flat_model = ''MAXIMIZE''" "binary_vars flat_model = [''x1'']"
  by (simp_all add: flat_model_def)

lemma flat_extract: "extract_coefficients flat_model = Inr ([0], [[0]], [''<=''], [1])"
  by (simp add: flat_model_def parse_defs)

lemma py_round2_0 [simp]: "py_round2 0 = 0"
  by (simp add: py_round2_def)

lemma py_round2_half [simp]: "py_round2 (1 / 2) = 1 / 2"
  by (simp add: py_round2_def)

lemma py_round2_nat [simp]: "py_round2 (of_nat n) = of_nat n"
  by (simp add: py_round2_def)

lemma generate_child_nodes_Inr:
  assumes "generate_child_nodes orc model dv b r calls = (Inr (L, R), calls')"
  shows "\<exists>oc cc ops lv gl vl gr vr.
           extract_coefficients model = Inr (oc, cc, ops, lv)
         \<and> child_model left_branch_var model oc cc ops lv dv b r = Inr (gl, vl)
         \<and> child_model right_branch_var model oc cc ops lv dv b r = Inr (gr, vr)
         \<and> L = make_node (orc gl) vl \<and> R = make_node (orc gr) vr
         \<and> calls' = calls @ [gl, gr]"
  using assms
  by (auto simp: generate_child_nodes_def generate_left_child_node_def
        generate_right_child_node_def optimize_def split: sum.splits prod.splits)





lemmas example_defs = x1_node_def flat_fixed_lp_def half_relaxed_lp_def flat_graph_def




section \<open>Integral nodes\<close>

lemma half_root: "fst (search_root half_oracle half_model []) = Inr (x1_node 0 0)"
  by (simp add: search_root_def half_extract half_fields lp_defs half_oracle_def lin_value_def
      example_defs)

lemma half_root_none: "find_next_branch_var (decision_vars (x1_node 0 0)) = Inr None"
  by (simp add: find_next_branch_var_def example_defs)

lemma half_root_step:
  "solve_step half_oracle half_model (x1_node 0 0, Dict [(''x1'', 0)]) [] {[(''x1'', 0)]} []
     = (Inr ([(x1_node (1 / 2) (1 / 2), Dict [(''x1'', 0)])], {[(''x1'', 1 / 2)], [(''x1'', 0)]}),
        [half_relaxed_lp, half_relaxed_lp])"
  by (simp add: solve_step_def half_extract half_fields lp_defs half_oracle_def lin_value_def
      example_defs)

lemma half_root_binary: "all_binary_check (decision_vars (x1_node 0 0)) = Inr True"
  by (simp add: all_binary_check_def example_defs)

text \<open>
  Claim C2.  The loop calls \<open>generate_child_nodes\<close> without looking at the result of
  \<open>find_next_branch_var\<close>, and \<open>all_binary_check\<close> is never called.  On \<open>half_model\<close> the
  root is integral: \<open>all_binary_check\<close> holds of it and the branching rule returns \<open>None\<close>
  for it.  Yet the pass over it submits two programs to the solver and queues the left
  child they produce, so the node is not treated as a leaf.
\<close>

theorem integral_node_is_expanded:
  "fst (search_root half_oracle half_model []) = Inr (x1_node 0 0)
   \<and> all_binary_check (decision_vars (x1_node 0 0)) = Inr True
   \<and> find_next_branch_var (decision_vars (x1_node 0 0)) = Inr None
   \<and> solve_step half_oracle half_model (x1_node 0 0, Dict [(''x1'', 0)]) [] {[(''x1'', 0)]} []
     = (Inr ([(x1_node (1 / 2) (1 / 2), Dict [(''x1'', 0)])], {[(''x1'', 1 / 2)], [(''x1'', 0)]}),
        [half_relaxed_lp, half_relaxed_lp])"
  using half_root half_root_binary half_root_none half_root_step by (intro conjI)

section \<open>Malformed models\<close>











section \<open>Flat mode and tree mode\<close>

lemma node_keys_add_node: "node_keys (add_node g k obj) = insert k (node_keys g)"
  by (auto simp: node_keys_def add_node_def update_keys)

lemma node_keys_add_edge: "node_keys (add_edge g u v) = insert u (insert v (node_keys g))"
  by (auto simp: node_keys_def add_edge_def touch_node_def)

lemma ref_visited_mono: "ref_visited vis e \<Longrightarrow> ref_visited (insert k vis) e"
  by (auto simp: ref_visited_def split: py_vars.splits)

lemma list_all_ref_visited_mono:
  "list_all (ref_visited vis) nl \<Longrightarrow> list_all (ref_visited (insert k vis)) nl"
  by (induction nl) (auto intro: ref_visited_mono)

lemma items_Dict: "items r = Inr d \<longleftrightarrow> r = Dict d"
  by (cases r) auto

lemma tree_child_sim:
  assumes "r = Dict pk" "pk \<in> vis" "tree_inv g nl vis"
    and "ref = r \<or> ref = decision_vars c"
  shows "(items (decision_vars c) = Inl e \<longrightarrow> tree_child c r ref t (g, nl, vis) = Inl e)
       \<and> (items (decision_vars c) = Inr ck \<longrightarrow>
            (\<exists>g'. tree_child c r ref t (g, nl, vis)
                     = Inr (g', nl @ (if ck \<notin> vis then [(c, ref, t)] else []), insert ck vis)
                 \<and> tree_inv g' (nl @ (if ck \<notin> vis then [(c, ref, t)] else [])) (insert ck vis)
                 \<and> g' = add_edge (add_node g ck (optimal_objective c)) pk ck))"
proof (intro conjI impI)
  assume "items (decision_vars c) = Inl e"
  then show "tree_child c r ref t (g, nl, vis) = Inl e"
    by (simp add: tree_child_def)
next
  assume ck: "items (decision_vars c) = Inr ck"
  let ?g' = "add_edge (add_node g ck (optimal_objective c)) pk ck"
  let ?nl' = "nl @ (if ck \<notin> vis then [(c, ref, t)] else [])"
  have tc: "tree_child c r ref t (g, nl, vis) = Inr (?g', ?nl', insert ck vis)"
    using ck assms(1) by (simp add: tree_child_def Let_def insert_absorb)
  have keys: "node_keys ?g' = insert ck vis"
    using assms(2,3) by (auto simp: node_keys_add_edge node_keys_add_node tree_inv_def)
  have "ref_visited (insert ck vis) (c, ref, t)"
    using assms(1,2,4) ck by (auto simp: ref_visited_def items_Dict)
  moreover have "list_all (ref_visited (insert ck vis)) nl"
    using assms(3) by (simp add: tree_inv_def list_all_ref_visited_mono)
  ultimately have "list_all (ref_visited (insert ck vis)) ?nl'" by simp
  with keys have "tree_inv ?g' ?nl' (insert ck vis)" by (simp add: tree_inv_def)
  with tc show "\<exists>g'. tree_child c r ref t (g, nl, vis) = Inr (g', ?nl', insert ck vis)
                 \<and> tree_inv g' ?nl' (insert ck vis) \<and> g' = ?g'" by blast
qed

lemma flat_entries_append [simp]:
  "flat_entries (xs @ ys) = flat_entries xs @ flat_entries ys"
  by (simp add: flat_entries_def)

lemma flat_entries_simps [simp]:
  "flat_entries [] = []" "flat_entries ((n, r, t) # nl) = (n, r) # flat_entries nl"
  by (simp_all add: flat_entries_def)

lemma tree_step_sim:
  assumes rv: "ref_visited vis (n, r, t)" and inv: "tree_inv g nl vis"
  shows "case tree_step orc m (n, r, t) (g, nl, vis) calls of
           (Inl e, c) \<Rightarrow> solve_step orc m (n, r) (flat_entries nl) vis calls = (Inl e, c)
         | (Inr (g', nl', vis'), c) \<Rightarrow>
             solve_step orc m (n, r) (flat_entries nl) vis calls = (Inr (flat_entries nl', vis'), c)
             \<and> tree_inv g' nl' vis'
             \<and> (\<exists>pk lk rk ol or. pk \<in> node_keys g
                   \<and> g' = add_edge (add_node (add_edge (add_node g lk ol) pk lk) rk or) pk rk)"
proof -
  from rv obtain pk where r: "r = Dict pk" and pk: "pk \<in> vis"
    by (auto simp: ref_visited_def split: py_vars.splits)
  show ?thesis
  proof (cases "find_next_branch_var (decision_vars n)")
    case (Inl e)
    then show ?thesis by (simp add: tree_step_def solve_step_def)
  next
    case (Inr b)
    obtain res c1 where gen: "generate_child_nodes orc m (decision_vars n) b r calls = (res, c1)"
      by (cases "generate_child_nodes orc m (decision_vars n) b r calls")
    show ?thesis
    proof (cases res)
      case (Inl e)
      with Inr gen show ?thesis by (simp add: tree_step_def solve_step_def)
    next
      case res: (Inr LR)
      obtain L R where LR: "LR = (L, R)" by (cases LR)
      show ?thesis
      proof (cases "items (decision_vars L)")
        case (Inl e)
        with tree_child_sim[OF r pk inv, where ref=r and c=L and e=e] have "tree_child L r r ''left'' (g, nl, vis) = Inl e"
          by simp
        with Inl Inr gen res LR show ?thesis by (simp add: tree_step_def solve_step_def)
      next
        case lk: (Inr lk)
        let ?nl1 = "nl @ (if lk \<notin> vis then [(L, r, ''left'')] else [])"
        let ?g1 = "add_edge (add_node g lk (optimal_objective L)) pk lk"
        from tree_child_sim[OF r pk inv, where ref=r and c=L and ck=lk and t="''left''"] lk have
          t1: "tree_child L r r ''left'' (g, nl, vis) = Inr (?g1, ?nl1, insert lk vis)"
          and inv1: "tree_inv ?g1 ?nl1 (insert lk vis)" by auto
        have pk1: "pk \<in> insert lk vis" using pk by simp
        show ?thesis
        proof (cases "items (decision_vars R)")
          case (Inl e)
          with tree_child_sim[OF r pk1 inv1, where ref="decision_vars R" and c=R and e=e and t="''right''"] have
            "tree_child R r (decision_vars R) ''right'' (?g1, ?nl1, insert lk vis) = Inl e"
            by simp
          with Inl lk t1 Inr gen res LR show ?thesis
            by (simp add: tree_step_def solve_step_def Let_def)
        next
          case rk: (Inr rk)
          let ?nl2 = "?nl1 @ (if rk \<notin> insert lk vis then [(R, decision_vars R, ''right'')] else [])"
          let ?g2 = "add_edge (add_node ?g1 rk (optimal_objective R)) pk rk"
          from tree_child_sim[OF r pk1 inv1, where ref="decision_vars R" and c=R and ck=rk and t="''right''"] rk have
            t2: "tree_child R r (decision_vars R) ''right'' (?g1, ?nl1, insert lk vis)
                   = Inr (?g2, ?nl2, insert rk (insert lk vis))"
            and inv2: "tree_inv ?g2 ?nl2 (insert rk (insert lk vis))" by auto
          have ts: "tree_step orc m (n, r, t) (g, nl, vis) calls
                      = (Inr (?g2, ?nl2, insert rk (insert lk vis)), c1)"
            using Inr gen res LR t1 t2 by (simp add: tree_step_def)
          have ss: "solve_step orc m (n, r) (flat_entries nl) vis calls
                      = (Inr (flat_entries ?nl2, insert rk (insert lk vis)), c1)"
            using Inr gen res LR lk rk by (auto simp: solve_step_def Let_def)
          have "pk \<in> node_keys g" using pk inv by (simp add: tree_inv_def)
          then have "\<exists>pk' lk' rk' ol or. pk' \<in> node_keys g
                   \<and> ?g2 = add_edge (add_node (add_edge (add_node g lk' ol) pk' lk') rk' or) pk' rk'"
            by blast
          with ts ss inv2 show ?thesis by simp
        qed
      qed
    qed
  qed
qed

lemma tree_loop_sim:
  "tree_inv g nl vis \<Longrightarrow>
     solve_loop orc m fuel (flat_entries nl) vis calls
       = (map_option (map_sum id node_keys) (fst (tree_loop orc m fuel (g, nl, vis) calls)),
          snd (tree_loop orc m fuel (g, nl, vis) calls))"
proof (induction fuel arbitrary: g nl vis calls)
  case 0
  then show ?case
    by (cases nl) (auto simp: tree_inv_def)
next
  case (Suc fuel)
  show ?case
  proof (cases nl)
    case Nil
    with Suc.prems show ?thesis by (simp add: tree_inv_def)
  next
    case (Cons e nl')
    obtain n r t where e: "e = (n, r, t)" by (cases e)
    from Suc.prems Cons e have rv: "ref_visited vis (n, r, t)" and inv: "tree_inv g nl' vis"
      by (simp_all add: tree_inv_def)
    obtain res c where ts: "tree_step orc m (n, r, t) (g, nl', vis) calls = (res, c)"
      by (cases "tree_step orc m (n, r, t) (g, nl', vis) calls")
    show ?thesis
    proof (cases res)
      case (Inl err)
      with tree_step_sim[OF rv inv, of orc m calls] ts Cons e show ?thesis by simp
    next
      case (Inr st)
      obtain g' nl2 vis' where st: "st = (g', nl2, vis')" by (cases st)
      from tree_step_sim[OF rv inv, of orc m calls] ts Inr st have
        ss: "solve_step orc m (n, r) (flat_entries nl') vis calls = (Inr (flat_entries nl2, vis'), c)"
        and inv': "tree_inv g' nl2 vis'" by simp_all
      from Suc.IH[OF inv', of c] ts Inr st ss Cons e show ?thesis by simp
    qed
  qed
qed

lemma zero_fields: "set_obj zero_model = ''MAXIMIZE''" "binary_vars zero_model = [''x1'']"
  by (simp_all add: zero_model_def)

lemma zero_extract: "extract_coefficients zero_model = Inr ([1], [[1]], [''<=''], [0])"
  by (simp add: zero_model_def parse_defs)

lemmas graph_defs = tree_step_def tree_child_def add_node_def add_edge_def touch_node_def
  empty_graph_def in_degree_def

lemma flat_tree:
  "fst (create_branch_and_bound_tree flat_oracle flat_model 3 []) = Some (Inr flat_graph)"
  by (simp add: create_branch_and_bound_tree_def search_root_def flat_extract flat_fields lp_defs
      graph_defs flat_oracle_def numeral_eq_Suc example_defs)

text \<open>
  Claim C8.  For the same model, solver, fuel and call list, \<open>solve_branch_and_bound\<close>
  is \<open>create_branch_and_bound_tree\<close> with the returned graph replaced by the set of its
  node keys: both run out of fuel together, raise the same error, submit the same
  programs, and when they return, the visited set is the set of keys of the graph's nodes.
\<close>

theorem flat_and_tree_mode_agree:
  "solve_branch_and_bound orc model fuel calls
     = (map_option (map_sum id (\<lambda>g. set (map fst (g_nodes g))))
          (fst (create_branch_and_bound_tree orc model fuel calls)),
        snd (create_branch_and_bound_tree orc model fuel calls))"
proof -
  obtain res c1 where sr: "search_root orc model calls = (res, c1)"
    by (cases "search_root orc model calls")
  show ?thesis
  proof (cases res)
    case (Inl e)
    with sr show ?thesis
      by (simp add: solve_branch_and_bound_def create_branch_and_bound_tree_def)
  next
    case (Inr root_node)
    show ?thesis
    proof (cases "items (decision_vars root_node)")
      case (Inl e)
      with sr Inr show ?thesis
        by (simp add: solve_branch_and_bound_def create_branch_and_bound_tree_def)
    next
      case rk: (Inr root_key)
      let ?g = "add_node empty_graph root_key (optimal_objective root_node)"
      have "node_keys empty_graph = {}" by (simp add: node_keys_def empty_graph_def)
      then have "tree_inv ?g [(root_node, decision_vars root_node, ''root'')] {root_key}"
        using rk by (simp add: tree_inv_def node_keys_add_node ref_visited_def items_Dict)
      from tree_loop_sim[OF this, of orc model fuel c1] sr Inr rk show ?thesis
        by (simp add: solve_branch_and_bound_def create_branch_and_bound_tree_def
            node_keys_def[abs_def])
    qed
  qed
qed

theorem flat_and_tree_mode_agree_witness:
  "fst (solve_branch_and_bound flat_oracle flat_model 3 [])
     = Some (Inr {[(''x1'', 0)], [(''x1'', 1 / 2)], [(''x1'', 1)]})"
  using flat_and_tree_mode_agree[of flat_oracle flat_model 3 "[]"] flat_tree
  by (simp add: flat_graph_def)

section \<open>Incoming edges in the graph\<close>

lemma hd_update: "al \<noteq> [] \<Longrightarrow> AList.update k v al \<noteq> [] \<and> fst (hd (AList.update k v al)) = fst (hd al)"
  by (cases al) auto

lemma hd_touch: "ns \<noteq> [] \<Longrightarrow> touch_node k ns \<noteq> [] \<and> fst (hd (touch_node k ns)) = fst (hd ns)"
  by (cases ns) (auto simp: touch_node_def)

lemma graph_inv_child:
  assumes "graph_inv root_key g" and "pk \<in> node_keys g"
  shows "graph_inv root_key (add_edge (add_node g ck obj) pk ck)"
proof -
  let ?g' = "add_edge (add_node g ck obj) pk ck"
  from assms(1) have ne: "g_nodes g \<noteq> []" and h: "fst (hd (g_nodes g)) = root_key"
    and inc: "\<forall>k\<in>node_keys g. k \<noteq> root_key \<longrightarrow> (\<exists>u. (u, k) \<in> set (g_edges g))"
    by (simp_all add: graph_inv_def)
  have n1: "g_nodes ?g' \<noteq> [] \<and> fst (hd (g_nodes ?g')) = root_key"
    using hd_update[OF ne, of ck "Some obj"] h hd_touch
    by (simp add: add_edge_def add_node_def)
  have keys: "node_keys ?g' = insert ck (node_keys g)"
    using assms(2) by (auto simp: node_keys_add_edge node_keys_add_node)
  have edges: "set (g_edges ?g') = insert (pk, ck) (set (g_edges g))"
    by (auto simp: add_edge_def add_node_def)
  have "\<forall>k\<in>node_keys ?g'. k \<noteq> root_key \<longrightarrow> (\<exists>u. (u, k) \<in> set (g_edges ?g'))"
    using inc unfolding keys edges by blast
  with n1 show ?thesis by (simp add: graph_inv_def)
qed

lemma tree_loop_graph_inv:
  "tree_inv g nl vis \<Longrightarrow> graph_inv root_key g \<Longrightarrow>
   fst (tree_loop orc m fuel (g, nl, vis) calls) = Some (Inr G) \<Longrightarrow> graph_inv root_key G"
proof (induction fuel arbitrary: g nl vis calls)
  case 0
  then show ?case by (cases nl) auto
next
  case (Suc fuel)
  show ?case
  proof (cases nl)
    case Nil
    with Suc.prems show ?thesis by simp
  next
    case (Cons e nl')
    obtain n r t where e: "e = (n, r, t)" by (cases e)
    from Suc.prems(1) Cons e have rv: "ref_visited vis (n, r, t)" and inv: "tree_inv g nl' vis"
      by (simp_all add: tree_inv_def)
    obtain res c where ts: "tree_step orc m (n, r, t) (g, nl', vis) calls = (res, c)"
      by (cases "tree_step orc m (n, r, t) (g, nl', vis) calls")
    show ?thesis
    proof (cases res)
      case (Inl err)
      with ts Cons e Suc.prems(3) show ?thesis by simp
    next
      case (Inr st)
      obtain g' nl2 vis' where st: "st = (g', nl2, vis')" by (cases st)
      from tree_step_sim[OF rv inv, of orc m calls] ts Inr st obtain pk lk rk ol or' where
        inv': "tree_inv g' nl2 vis'" and pk: "pk \<in> node_keys g"
        and g': "g' = add_edge (add_node (add_edge (add_node g lk ol) pk lk) rk or') pk rk"
        by auto
      have g1: "graph_inv root_key (add_edge (add_node g lk ol) pk lk)"
        using graph_inv_child[OF Suc.prems(2) pk] .
      have "pk \<in> node_keys (add_edge (add_node g lk ol) pk lk)"
        by (simp add: node_keys_add_edge)
      from graph_inv_child[OF g1 this] g' have gi: "graph_inv root_key g'" by simp
      from Suc.prems(3) ts Inr st Cons e have
        "fst (tree_loop orc m fuel (g', nl2, vis') c) = Some (Inr G)" by simp
      from Suc.IH[OF inv' gi this] show ?thesis .
    qed
  qed
qed

lemma in_degree_pos: "(u, k) \<in> set (g_edges g) \<Longrightarrow> 1 \<le> in_degree g k"
proof -
  assume "(u, k) \<in> set (g_edges g)"
  then have "(u, k) \<in> set (filter (\<lambda>(u, v). v = k) (g_edges g))" by simp
  then have "filter (\<lambda>(u, v). v = k) (g_edges g) \<noteq> []" by force
  then show ?thesis by (simp add: in_degree_def Suc_le_eq)
qed

text \<open>
  Claim C10, as stated, fails.  On \<open>zero_model\<close> the root is integral, both children of
  the pass over it have the root's own assignment, and the edge recorded for them runs
  from the root's key to itself: the root has one incoming edge.
\<close>

theorem root_gets_incoming_edge:
  "fst (create_branch_and_bound_tree zero_oracle zero_model 1 [])
     = Some (Inr \<lparr>g_nodes = [([(''x1'', 0)], Some (Num 0))],
                  g_edges = [([(''x1'', 0)], [(''x1'', 0)])]\<rparr>)
   \<and> in_degree \<lparr>g_nodes = [([(''x1'', 0)], Some (Num 0))],
                 g_edges = [([(''x1'', 0)], [(''x1'', 0)])]\<rparr> [(''x1'', 0)] = 1"
  by (simp add: create_branch_and_bound_tree_def search_root_def zero_extract zero_fields lp_defs
      graph_defs zero_oracle_def)

text \<open>
  Claim C10, amended.  In every graph returned by \<open>create_branch_and_bound_tree\<close> the
  first recorded node is the root, and every recorded node other than the root has at
  least one incoming edge.  (Nothing is said about the root's incoming edges.)
\<close>

theorem tree_nodes_have_incoming_edge:
  assumes "fst (create_branch_and_bound_tree orc model fuel calls) = Some (Inr G)"
  shows "\<exists>root_node root_key.
           fst (search_root orc model calls) = Inr root_node
         \<and> items (decision_vars root_node) = Inr root_key
         \<and> g_nodes G \<noteq> [] \<and> fst (hd (g_nodes G)) = root_key
         \<and> (\<forall>k\<in>set (map fst (g_nodes G)). k \<noteq> root_key \<longrightarrow> 1 \<le> in_degree G k)"
proof -
  obtain res c1 where sr: "search_root orc model calls = (res, c1)"
    by (cases "search_root orc model calls")
  from assms sr obtain root_node where res: "res = Inr root_node"
    by (cases res) (auto simp: create_branch_and_bound_tree_def)
  from assms sr res obtain root_key where rk: "items (decision_vars root_node) = Inr root_key"
    by (cases "items (decision_vars root_node)") (auto simp: create_branch_and_bound_tree_def)
  let ?g = "add_node empty_graph root_key (optimal_objective root_node)"
  have "node_keys empty_graph = {}" by (simp add: node_keys_def empty_graph_def)
  then have inv: "tree_inv ?g [(root_node, decision_vars root_node, ''root'')] {root_key}"
    using rk by (simp add: tree_inv_def node_keys_add_node ref_visited_def items_Dict)
  have gi: "graph_inv root_key ?g"
    by (simp add: graph_inv_def node_keys_def add_node_def empty_graph_def)
  from assms sr res rk have
    "fst (tree_loop orc model fuel (?g, [(root_node, decision_vars root_node, ''root'')], {root_key}) c1)
       = Some (Inr G)"
    by (simp add: create_branch_and_bound_tree_def)
  from tree_loop_graph_inv[OF inv gi this] have G: "graph_inv root_key G" .
  then have "\<forall>k\<in>set (map fst (g_nodes G)). k \<noteq> root_key \<longrightarrow> 1 \<le> in_degree G k"
    using in_degree_pos by (fastforce simp: graph_inv_def node_keys_def)
  with G sr res rk show ?thesis by (simp add: graph_inv_def)
qed

theorem tree_nodes_have_incoming_edge_witness:
  "fst (create_branch_and_bound_tree flat_oracle flat_model 3 []) = Some (Inr flat_graph)
   \<and> 1 \<le> in_degree flat_graph [(''x1'', 1 / 2)]
   \<and> 1 \<le> in_degree flat_graph [(''x1'', 1)]"
proof -
  note t = flat_tree
  from tree_nodes_have_incoming_edge[OF t] obtain root_key where
    b: "\<forall>k\<in>set (map fst (g_nodes flat_graph)). k \<noteq> root_key \<longrightarrow> 1 \<le> in_degree flat_graph k"
    and c: "fst (hd (g_nodes flat_graph)) = root_key"
    by blast
  from c have "root_key = [(''x1'', 0)]" by (simp add: flat_graph_def)
  with b have "1 \<le> in_degree flat_graph [(''x1'', 1 / 2)] \<and> 1 \<le> in_degree flat_graph [(''x1'', 1)]"
    by (simp add: flat_graph_def)
  with t show ?thesis by simp
qed

end
